theory Spec2Isabelle
  imports Complex_Main
begin

section \<open>Incremental OHLCV ingestion: \<open>filter3_download_missing.py\<close>\<close>

text \<open>
  A shallow embedding of the window planner (\<open>_normalize_last_date\<close>,
  \<open>_compute_start_date\<close>), the range fetcher (\<open>yahoo_fetch_range_rows\<close>), the fetch
  task (\<open>fetch_worker\<close>), the persistence writer (\<open>db_writer\<close>) and the orchestrator
  (\<open>update_data\<close>). Every Python exception is a value: a function that can raise returns
  \<open>exn + 'a\<close>, with \<open>Inl\<close> for the exception that leaves it.
\<close>

subsection \<open>Exceptions\<close>

datatype exn =
    TypeError | ValueError | KeyError | IndexError | AttributeError | OverflowError
  | RequestFailed   \<comment> \<open>whatever \<open>session.get\<close> or \<open>resp.json\<close> raises (transport, timeout, decode)\<close>
  | ParseFailed     \<comment> \<open>whatever \<open>pd.to_datetime\<close> raises on a string it cannot parse\<close>

subsection \<open>Calendar dates\<close>

text \<open>
  A \<open>datetime.date\<close> is represented by its proleptic Gregorian ordinal
  (\<open>date.toordinal()\<close>: day 1 is 0001-01-01), the representation in which Python itself
  does date arithmetic and on which the order of dates is the order of integers.
  \<open>ymd2ord\<close> follows \<open>_ymd2ord\<close> of the standard library and is only used to write
  concrete dates.
\<close>

type_synonym date = int

definition MAXORDINAL :: int where
  "MAXORDINAL = 3652059"   \<comment> \<open>\<open>date.max.toordinal()\<close>, 9999-12-31\<close>

definition valid_date :: "date \<Rightarrow> bool" where
  "valid_date d = (1 \<le> d \<and> d \<le> MAXORDINAL)"

definition is_leap :: "int \<Rightarrow> bool" where
  "is_leap y = (y mod 4 = 0 \<and> (y mod 100 \<noteq> 0 \<or> y mod 400 = 0))"

definition days_before_year :: "int \<Rightarrow> int" where
  "days_before_year year =
     (let y = year - 1 in y * 365 + y div 4 - y div 100 + y div 400)"

definition days_before_month :: "int \<Rightarrow> int \<Rightarrow> int" where
  "days_before_month year month =
     sum_list (take (nat (month - 1)) [31, 28, 31, 30, 31, 30, 31, 31, 30, 31, 30, 31])
       + (if 2 < month \<and> is_leap year then 1 else 0)"

definition ymd2ord :: "int \<Rightarrow> int \<Rightarrow> int \<Rightarrow> date" where
  "ymd2ord year month day = days_before_year year + days_before_month year month + day"

text \<open>
  \<open>d + timedelta(days=n)\<close> and \<open>d - timedelta(days=n)\<close>: Python raises \<open>OverflowError\<close>
  when the result leaves \<open>date.min .. date.max\<close> (and already when \<open>timedelta\<close> is built
  with more than 999999999 days, which for a valid \<open>d\<close> is a result out of range too).
\<close>

definition date_add :: "date \<Rightarrow> int \<Rightarrow> exn + date" where
  "date_add d n = (if valid_date (d + n) then Inr (d + n) else Inl OverflowError)"

definition date_sub :: "date \<Rightarrow> int \<Rightarrow> exn + date" where
  "date_sub d n = (if valid_date (d - n) then Inr (d - n) else Inl OverflowError)"

subsection \<open>Watermarks\<close>

text \<open>
  The raw \<open>last_date\<close> cell of the download plan, as \<open>plan["last_date"].tolist()\<close> hands
  it to a task: a missing cell (\<open>NaN\<close>, for which \<open>pd.isna\<close> is true) or the text of the
  cell. Strings are sequences of ASCII characters.
\<close>

datatype raw_last_date = RawNaN | RawStr string

text \<open>
  What \<open>pd.to_datetime(s).date()\<close> evaluates to when it does not raise: pandas parses
  its not-a-time strings (such as \<open>"NaT"\<close>) to \<open>NaT\<close>, and \<open>NaT.date()\<close> is \<open>NaT\<close>
  again, not a \<open>datetime.date\<close>.
\<close>

datatype pd_date = PdNaT | PdDate date

text \<open>Python's \<open>str.strip()\<close> and \<open>str.lower()\<close> on ASCII text.\<close>

definition is_space :: "char \<Rightarrow> bool" where
  "is_space c = (let n = (of_char c :: nat) in (9 \<le> n \<and> n \<le> 13) \<or> (28 \<le> n \<and> n \<le> 32))"

definition strip :: "string \<Rightarrow> string" where
  "strip s = rev (dropWhile is_space (rev (dropWhile is_space s)))"

definition lower_char :: "char \<Rightarrow> char" where
  "lower_char c =
     (case map_of (zip ''ABCDEFGHIJKLMNOPQRSTUVWXYZ'' ''abcdefghijklmnopqrstuvwxyz'') c of
        Some l \<Rightarrow> l
      | None \<Rightarrow> c)"

definition lower :: "string \<Rightarrow> string" where
  "lower s = map lower_char s"

text \<open>
  \<open>_normalize_last_date\<close> (lines 88-99). The parameter \<open>to_date\<close> is
  \<open>\<lambda>s. pd.to_datetime(s).date()\<close>, pandas being outside the repository. The result is
  Python's \<open>None\<close> (\<open>None\<close> here) or the parsed value; \<open>except Exception\<close> turns every
  exception of the parse into \<open>None\<close>.
\<close>

definition normalize_last_date ::
    "(string \<Rightarrow> exn + pd_date) \<Rightarrow> raw_last_date \<Rightarrow> exn + pd_date option" where
  "normalize_last_date to_date raw_last_date =
     (case raw_last_date of
        RawNaN \<Rightarrow> Inr None
      | RawStr text \<Rightarrow>
          (let s = strip text in
           if s = [] \<or> lower s = ''none'' then Inr None
           else (case to_date s of
                   Inr dt \<Rightarrow> Inr (Some dt)
                 | Inl e \<Rightarrow> Inr None)))"

text \<open>
  \<open>_compute_start_date\<close> (lines 102-114), with \<open>date.today()\<close> as the parameter
  \<open>today\<close>. The horizon is computed first, then the day after the watermark; either can
  raise \<open>OverflowError\<close>. On \<open>NaT\<close>, \<open>NaT + timedelta(days=1)\<close> is \<open>NaT\<close> and
  \<open>max(NaT, n_years_ago)\<close> raises \<open>TypeError\<close> (pandas refuses to order \<open>NaT\<close> against a
  \<open>datetime.date\<close>).
\<close>

definition compute_start_date :: "date \<Rightarrow> pd_date option \<Rightarrow> int \<Rightarrow> exn + date" where
  "compute_start_date today last_date years_back =
     (case date_sub today (365 * years_back) of
        Inl e \<Rightarrow> Inl e
      | Inr n_years_ago \<Rightarrow>
          (case (case last_date of
                   None \<Rightarrow> Inr n_years_ago
                 | Some PdNaT \<Rightarrow> Inl TypeError
                 | Some (PdDate d) \<Rightarrow>
                     (case date_add d 1 of
                        Inl e \<Rightarrow> Inl e
                      | Inr next_day \<Rightarrow> Inr (max next_day n_years_ago))) of
             Inl e \<Rightarrow> Inl e
           | Inr start \<Rightarrow> Inr (if start \<ge> today then today else start)))"

subsection \<open>Python values of a decoded response\<close>

text \<open>
  A Python \<open>float\<close> is idealised: a finite float is the real number it stands for
  (rounding to a double is not modelled), and the three special values are kept apart.
\<close>

datatype pyfloat = Finite real | NaN | PosInf | NegInf

text \<open>
  What \<open>resp.json()\<close> can return: \<open>None\<close>, a \<open>bool\<close>, an \<open>int\<close>, a \<open>float\<close>, a \<open>str\<close>, a
  \<open>list\<close> or a \<open>dict\<close> with string keys (its items, looked up by key).
\<close>

datatype pyval =
    PNone | PBool bool | PInt int | PFloat pyfloat | PStr string
  | PList "pyval list" | PDict "(string \<times> pyval) list"

text \<open>Sequencing of computations that can raise: the first exception leaves.\<close>

fun bind_exn :: "exn + 'a \<Rightarrow> ('a \<Rightarrow> exn + 'b) \<Rightarrow> exn + 'b" where
  "bind_exn (Inl e) f = Inl e"
| "bind_exn (Inr x) f = f x"

text \<open>\<open>x[key]\<close> for a string key, \<open>x[0]\<close>, \<open>x.get(key, default)\<close>, truth value, \<open>iter(x)\<close>.\<close>

fun getitem_key :: "pyval \<Rightarrow> string \<Rightarrow> exn + pyval" where
  "getitem_key (PDict items) key =
     (case map_of items key of None \<Rightarrow> Inl KeyError | Some v \<Rightarrow> Inr v)"
| "getitem_key x key = Inl TypeError"

fun getitem_0 :: "pyval \<Rightarrow> exn + pyval" where
  "getitem_0 (PList []) = Inl IndexError"
| "getitem_0 (PList (v # vs)) = Inr v"
| "getitem_0 (PStr []) = Inl IndexError"
| "getitem_0 (PStr (c # cs)) = Inr (PStr [c])"
| "getitem_0 (PDict items) = Inl KeyError"
| "getitem_0 x = Inl TypeError"

fun dict_get :: "pyval \<Rightarrow> string \<Rightarrow> pyval \<Rightarrow> exn + pyval" where
  "dict_get (PDict items) key dflt =
     (case map_of items key of None \<Rightarrow> Inr dflt | Some v \<Rightarrow> Inr v)"
| "dict_get x key dflt = Inl AttributeError"

fun truthy :: "pyval \<Rightarrow> bool" where
  "truthy PNone = False"
| "truthy (PBool b) = b"
| "truthy (PInt i) = (i \<noteq> 0)"
| "truthy (PFloat f) = (f \<noteq> Finite 0)"
| "truthy (PStr s) = (s \<noteq> [])"
| "truthy (PList vs) = (vs \<noteq> [])"
| "truthy (PDict items) = (items \<noteq> [])"

fun py_iter :: "pyval \<Rightarrow> exn + pyval list" where
  "py_iter (PList vs) = Inr vs"
| "py_iter (PStr s) = Inr (map (\<lambda>c. PStr [c]) s)"
| "py_iter (PDict items) = Inr (map (\<lambda>kv. PStr (fst kv)) items)"
| "py_iter x = Inl TypeError"

text \<open>
  \<open>float(x)\<close>. An \<open>int\<close> beyond the range of a double raises \<open>OverflowError\<close>; a string
  goes through Python's float parser, the parameter \<open>float_of_str\<close> (\<open>None\<close> where it
  raises \<open>ValueError\<close>).
\<close>

fun py_float :: "(string \<Rightarrow> pyfloat option) \<Rightarrow> pyval \<Rightarrow> exn + pyfloat" where
  "py_float float_of_str PNone = Inl TypeError"
| "py_float float_of_str (PBool b) = Inr (Finite (if b then 1 else 0))"
| "py_float float_of_str (PInt i) =
     (if \<bar>i\<bar> < 2 ^ 1024 - 2 ^ 970 then Inr (Finite (of_int i)) else Inl OverflowError)"
| "py_float float_of_str (PFloat f) = Inr f"
| "py_float float_of_str (PStr s) =
     (case float_of_str s of None \<Rightarrow> Inl ValueError | Some f \<Rightarrow> Inr f)"
| "py_float float_of_str (PList vs) = Inl TypeError"
| "py_float float_of_str (PDict items) = Inl TypeError"

text \<open>
  \<open>datetime.utcfromtimestamp(t).date()\<close>: the UTC day of \<open>t\<close> seconds after the epoch
  (1970-01-01 has ordinal 719163). A float is first rounded half-even to microseconds.
  A day outside years 1..9999 raises (\<open>ValueError\<close>; the narrower limits of a platform's
  \<open>time_t\<close> are not modelled).
\<close>

definition day_of_seconds :: "int \<Rightarrow> exn + date" where
  "day_of_seconds s =
     (let d = 719163 + s div 86400 in if valid_date d then Inr d else Inl ValueError)"

definition round_half_even :: "real \<Rightarrow> int" where
  "round_half_even r =
     (let f = \<lfloor>r\<rfloor>; d = r - of_int f in
      if d < 1 / 2 then f else if 1 / 2 < d then f + 1 else if even f then f else f + 1)"

definition seconds_of_float :: "real \<Rightarrow> int" where
  "seconds_of_float x =
     (let intpart = (if 0 \<le> x then \<lfloor>x\<rfloor> else \<lceil>x\<rceil>);
          us = round_half_even ((x - of_int intpart) * 1000000) in
      if 1000000 \<le> us then intpart + 1 else if us < 0 then intpart - 1 else intpart)"

fun utc_date :: "pyval \<Rightarrow> exn + date" where
  "utc_date (PInt t) = day_of_seconds t"
| "utc_date (PBool b) = day_of_seconds (if b then 1 else 0)"
| "utc_date (PFloat (Finite x)) = day_of_seconds (seconds_of_float x)"
| "utc_date (PFloat NaN) = Inl ValueError"
| "utc_date (PFloat PosInf) = Inl OverflowError"
| "utc_date (PFloat NegInf) = Inl OverflowError"
| "utc_date x = Inl TypeError"

subsection \<open>The environment of a run\<close>

text \<open>
  One HTTP request of the fetcher: the symbol in the URL and the two dates whose
  midnights are sent as \<open>period1\<close> and \<open>period2\<close> (\<open>interval\<close> is always \<open>1d\<close>).
\<close>

record request =
  req_symbol :: string
  req_start :: date
  req_end :: date

text \<open>
  What the code reads from outside the repository: the clock (\<open>date.today()\<close>, taken
  to give the same day at both places a task reads it), pandas' date parser, the remote
  service (\<open>session.get(url, params, timeout=10)\<close> followed by \<open>resp.json()\<close>: the decoded
  body, or the exception either of them raises) and Python's float parser.
\<close>

record env =
  env_today :: date
  env_to_date :: "string \<Rightarrow> exn + pd_date"
  env_get_json :: "request \<Rightarrow> exn + pyval"
  env_float_of_str :: "string \<Rightarrow> pyfloat option"

subsection \<open>Range fetcher\<close>

text \<open>A price row \<open>(symbol, date, open, high, low, close, volume)\<close>; the code stores the
  date as its ISO text \<open>YYYY-MM-DD\<close>, which is one-to-one with the date.\<close>

type_synonym row = "string \<times> date \<times> pyfloat \<times> pyfloat \<times> pyfloat \<times> pyfloat \<times> pyfloat"

type_synonym record6 = "pyval \<times> pyval \<times> pyval \<times> pyval \<times> pyval \<times> pyval"

text \<open>
  The body of the loop (lines 156-169) on one zipped record: \<open>Inr None\<close> is
  \<open>continue\<close> (the record is dropped), \<open>Inr (Some row)\<close> is \<open>rows.append(row)\<close>, \<open>Inl e\<close> is
  an exception raised by a conversion.
\<close>

definition row_of_record ::
    "(string \<Rightarrow> pyfloat option) \<Rightarrow> string \<Rightarrow> record6 \<Rightarrow> exn + row option" where
  "row_of_record float_of_str symbol r =
     (case r of (t, o', h, l, c, v) \<Rightarrow>
        if o' = PNone \<or> h = PNone \<or> l = PNone \<or> c = PNone then Inr None
        else
          bind_exn (utc_date t) (\<lambda>dt.
          bind_exn (py_float float_of_str o') (\<lambda>fo.
          bind_exn (py_float float_of_str h) (\<lambda>fh.
          bind_exn (py_float float_of_str l) (\<lambda>fl.
          bind_exn (py_float float_of_str c) (\<lambda>fc.
          bind_exn (if v \<noteq> PNone then py_float float_of_str v else Inr (Finite 0)) (\<lambda>fv.
          Inr (Some (symbol, dt, fo, fh, fl, fc, fv)))))))))"

fun build_rows ::
    "(string \<Rightarrow> pyfloat option) \<Rightarrow> string \<Rightarrow> record6 list \<Rightarrow> row list \<Rightarrow> exn + row list" where
  "build_rows float_of_str symbol [] rows = Inr rows"
| "build_rows float_of_str symbol (r # rs) rows =
     (case row_of_record float_of_str symbol r of
        Inl e \<Rightarrow> Inl e
      | Inr None \<Rightarrow> build_rows float_of_str symbol rs rows
      | Inr (Some row) \<Rightarrow> build_rows float_of_str symbol rs (rows @ [row]))"


text \<open>Lines 142-144, the part inside the second \<open>try\<close>.\<close>

definition extract_result :: "pyval \<Rightarrow> exn + pyval \<times> pyval" where
  "extract_result data =
     bind_exn (getitem_key data ''chart'') (\<lambda>chart.
     bind_exn (getitem_key chart ''result'') (\<lambda>results.
     bind_exn (getitem_0 results) (\<lambda>result.
     bind_exn (dict_get result ''timestamp'' (PList [])) (\<lambda>timestamps.
     bind_exn (getitem_key result ''indicators'') (\<lambda>indicators.
     bind_exn (getitem_key indicators ''quote'') (\<lambda>quotes.
     bind_exn (getitem_0 quotes) (\<lambda>quote.
     Inr (timestamps, quote))))))))"

text \<open>\<open>quote.get(key, []) or []\<close>.\<close>

definition quote_array :: "pyval \<Rightarrow> string \<Rightarrow> exn + pyval" where
  "quote_array quote key =
     bind_exn (dict_get quote key (PList [])) (\<lambda>v. Inr (if truthy v then v else PList []))"

text \<open>Lines 148-171, outside every \<open>try\<close>: the five arrays, the zip, the loop.\<close>

definition parse_quote ::
    "(string \<Rightarrow> pyfloat option) \<Rightarrow> string \<Rightarrow> pyval \<Rightarrow> pyval \<Rightarrow> exn + row list" where
  "parse_quote float_of_str symbol timestamps quote =
     bind_exn (quote_array quote ''open'') (\<lambda>opens.
     bind_exn (quote_array quote ''high'') (\<lambda>highs.
     bind_exn (quote_array quote ''low'') (\<lambda>lows.
     bind_exn (quote_array quote ''close'') (\<lambda>closes.
     bind_exn (quote_array quote ''volume'') (\<lambda>volumes.
     bind_exn (py_iter timestamps) (\<lambda>ts.
     bind_exn (py_iter opens) (\<lambda>os.
     bind_exn (py_iter highs) (\<lambda>hs.
     bind_exn (py_iter lows) (\<lambda>ls.
     bind_exn (py_iter closes) (\<lambda>cs.
     bind_exn (py_iter volumes) (\<lambda>vs.
     build_rows float_of_str symbol (zip ts (zip os (zip hs (zip ls (zip cs vs))))) [])))))))))))"

text \<open>
  \<open>yahoo_fetch_range_rows\<close> (lines 119-171): the value returned or the exception that
  leaves the function, together with the requests it sent, in order. The conversion of
  the two dates to epoch seconds (lines 124-125) is taken not to raise.
\<close>

definition yahoo_fetch_range_rows ::
    "env \<Rightarrow> string \<Rightarrow> date \<Rightarrow> date \<Rightarrow> (exn + row list) \<times> request list" where
  "yahoo_fetch_range_rows env symbol start_dt end_dt =
     (if start_dt \<ge> end_dt then (Inr [], [])
      else
        (let req = \<lparr>req_symbol = symbol, req_start = start_dt, req_end = end_dt\<rparr> in
         (case env_get_json env req of
            Inl e \<Rightarrow> Inr []
          | Inr data \<Rightarrow>
              (case extract_result data of
                 Inl e \<Rightarrow> Inr []
               | Inr (timestamps, quote) \<Rightarrow>
                   parse_quote (env_float_of_str env) symbol timestamps quote),
          [req])))"

text \<open>
  \<open>fetch_worker\<close> (lines 175-186): what the task returns or raises, and the requests
  it sent.
\<close>

definition fetch_worker ::
    "env \<Rightarrow> string \<Rightarrow> raw_last_date \<Rightarrow> (exn + string \<times> row list) \<times> request list" where
  "fetch_worker env symbol raw_last_date =
     (case normalize_last_date (env_to_date env) raw_last_date of
        Inl e \<Rightarrow> (Inl e, [])
      | Inr last_dt \<Rightarrow>
          (case compute_start_date (env_today env) last_dt 10 of
             Inl e \<Rightarrow> (Inl e, [])
           | Inr start_dt \<Rightarrow>
               (case date_add (env_today env) 1 of
                  Inl e \<Rightarrow> (Inl e, [])
                | Inr end_dt \<Rightarrow>
                    if start_dt \<ge> end_dt then (Inr (symbol, []), [])
                    else
                      (case yahoo_fetch_range_rows env symbol start_dt end_dt of
                         (Inl e, reqs) \<Rightarrow> (Inl e, reqs)
                       | (Inr rows, reqs) \<Rightarrow> (Inr (symbol, rows), reqs)))))"

subsection \<open>Persistence writer\<close>

text \<open>
  The \<open>prices\<close> table is the list of its rows in insertion order; its primary key is
  \<open>(symbol, date)\<close> (\<open>ensure_db\<close>, line 39). A connection sees the committed table and
  the rows its open transaction has inserted: Python's \<open>sqlite3\<close> opens a transaction
  before the first \<open>INSERT\<close>, keeps it open until \<open>commit\<close>, does not roll it back when a
  statement raises, and discards it on \<open>close\<close>.
\<close>

type_synonym table = "row list"

definition row_key :: "row \<Rightarrow> string \<times> date" where
  "row_key r = (fst r, fst (snd r))"

record connection =
  committed :: table
  pending :: "row list"

definition visible :: "connection \<Rightarrow> table" where
  "visible c = committed c @ pending c"

text \<open>\<open>INSERT OR IGNORE INTO prices ... VALUES (?, ?, ?, ?, ?, ?, ?)\<close> for one row.\<close>

definition insert_or_ignore :: "row \<Rightarrow> connection \<Rightarrow> connection" where
  "insert_or_ignore r c =
     (if row_key r \<in> set (map row_key (visible c)) then c
      else c\<lparr>pending := pending c @ [r]\<rparr>)"

definition executemany :: "row list \<Rightarrow> connection \<Rightarrow> connection" where
  "executemany rows c = fold insert_or_ignore rows c"

definition commit :: "connection \<Rightarrow> connection" where
  "commit c = \<lparr>committed = committed c @ pending c, pending = []\<rparr>"

text \<open>
  What the database does with one batch, decided outside the code: the insert and the
  commit go through, or an exception leaves the \<open>try\<close> body (lines 67-77) after the
  first \<open>k\<close> rows of the batch have been executed (with \<open>k\<close> the size of the batch or
  more, it is \<open>commit\<close> that raised).
\<close>

datatype db_outcome = Succeeds | Raises nat

datatype writer_line = BatchFailed | TotalWritten nat

record writer =
  conn :: connection
  total_written :: nat
  printed :: "writer_line list"

text \<open>
  The loop of \<open>db_writer\<close> (lines 58-79) on the items the queue will deliver, the \<open>n\<close>-th
  item being handled under \<open>outcome n\<close>. It returns the state at \<open>break\<close> and the items
  not taken from the queue; on a queue that never delivers \<open>None\<close>, \<open>queue.get()\<close> blocks
  for ever and the loop does not return (\<open>None\<close> here).
\<close>

fun writer_loop ::
    "(nat \<Rightarrow> db_outcome) \<Rightarrow> nat \<Rightarrow> writer \<Rightarrow> row list option list
       \<Rightarrow> (writer \<times> row list option list) option" where
  "writer_loop outcome n w [] = None"
| "writer_loop outcome n w (None # queue) = Some (w, queue)"
| "writer_loop outcome n w (Some rows # queue) =
     (if rows = [] then writer_loop outcome (Suc n) w queue
      else
        (case outcome n of
           Succeeds \<Rightarrow>
             writer_loop outcome (Suc n)
               (w\<lparr>conn := commit (executemany rows (conn w)),
                  total_written := total_written w + length rows\<rparr>) queue
         | Raises k \<Rightarrow>
             writer_loop outcome (Suc n)
               (w\<lparr>conn := executemany (take k rows) (conn w),
                  printed := printed w @ [BatchFailed]\<rparr>) queue))"

record writer_result =
  store :: table
  reported_total :: nat
  writer_output :: "writer_line list"
  unread :: "row list option list"

text \<open>
  \<open>db_writer\<close> (lines 47-83) on a database holding \<open>store0\<close>: after the loop,
  \<open>conn.close()\<close> drops what was not committed and the total is printed.
\<close>

definition db_writer ::
    "(nat \<Rightarrow> db_outcome) \<Rightarrow> table \<Rightarrow> row list option list \<Rightarrow> writer_result option" where
  "db_writer outcome store0 queue =
     (case writer_loop outcome 0
             \<lparr>conn = \<lparr>committed = store0, pending = []\<rparr>, total_written = 0, printed = []\<rparr>
             queue of
        None \<Rightarrow> None
      | Some (w, rest) \<Rightarrow>
          Some \<lparr>store = committed (conn w),
                reported_total = total_written w,
                writer_output = printed w @ [TotalWritten (total_written w)],
                unread = rest\<rparr>)"

subsection \<open>Orchestrator\<close>

text \<open>
  What the main thread of \<open>update_data\<close> does, in order: it takes a finished future
  from \<open>as_completed\<close>, prints, puts a batch or the end-of-stream value \<open>None\<close> on the queue.
\<close>

datatype event =
    FutureDone nat            \<comment> \<open>\<open>as_completed\<close> yields the future of task \<open>i\<close>\<close>
  | Put "row list"            \<comment> \<open>\<open>q.put(rows)\<close>\<close>
  | Progress nat nat          \<comment> \<open>the progress line: completed, total rows\<close>
  | WorkerCrashed             \<comment> \<open>the line printed when \<open>fut.result()\<close> raises\<close>
  | PutEndOfStream            \<comment> \<open>\<open>q.put(None)\<close>\<close>

record sched =
  total_rows :: nat
  completed :: nat
  trace :: "event list"

text \<open>
  The loop over \<open>as_completed(futures)\<close> (lines 235-252), on the finished futures in the
  order they are yielded, each with the index of its task and what \<open>fut.result()\<close> gives;
  \<open>n_symbols\<close> is \<open>len(symbols)\<close>.
\<close>

fun collect :: "nat \<Rightarrow> (nat \<times> (exn + string \<times> row list)) list \<Rightarrow> sched \<Rightarrow> sched" where
  "collect n_symbols [] s = s"
| "collect n_symbols ((i, Inl e) # futs) s =
     collect n_symbols futs (s\<lparr>trace := trace s @ [FutureDone i, WorkerCrashed]\<rparr>)"
| "collect n_symbols ((i, Inr (symbol, rows)) # futs) s =
     (let n_rows = length rows;
          total = total_rows s + n_rows;
          n_done = completed s + 1 in
      collect n_symbols futs
        \<lparr>total_rows = total, completed = n_done,
         trace = trace s @ [FutureDone i]
           @ (if n_rows > 0 then [Put rows] else [])
           @ (if n_done mod 200 = 0 \<or> n_done = n_symbols then [Progress n_done total]
              else [])\<rparr>)"

text \<open>
  \<open>update_data\<close> from line 202 on, as its main thread runs it: \<open>plan\<close> holds the
  \<open>symbol\<close> and \<open>last_date\<close> columns, \<open>workers\<close> is the pool size asked for, and \<open>order\<close>
  lists the indices of the tasks in the order their futures finish. With no symbol the
  function returns before it starts anything; a pool size below one makes
  \<open>ThreadPoolExecutor\<close> raise \<open>ValueError\<close> once the writer thread is started, and \<open>None\<close>
  is never put. Otherwise \<open>None\<close> is put after the \<open>with\<close> block (line 254).
\<close>

definition update_data ::
    "env \<Rightarrow> int \<Rightarrow> (string \<times> raw_last_date) list \<Rightarrow> nat list \<Rightarrow> exn + sched" where
  "update_data env workers plan order =
     (if plan = [] then Inr \<lparr>total_rows = 0, completed = 0, trace = []\<rparr>
      else if min workers (int (length plan)) \<le> 0 then Inl ValueError
      else
        (let futures = map (\<lambda>(symbol, last_date). fst (fetch_worker env symbol last_date)) plan;
             s = collect (length plan) (map (\<lambda>i. (i, futures ! i)) order)
                   \<lparr>total_rows = 0, completed = 0, trace = []\<rparr> in
         Inr (s\<lparr>trace := trace s @ [PutEndOfStream]\<rparr>)))"

text \<open>
  The items the queue delivers to the writer thread (started at line 223, joined at
  line 255): what the main thread put, in the order of the puts.
\<close>

fun queue_of :: "event list \<Rightarrow> row list option list" where
  "queue_of [] = []"
| "queue_of (Put rows # evs) = Some rows # queue_of evs"
| "queue_of (PutEndOfStream # evs) = None # queue_of evs"
| "queue_of (ev # evs) = queue_of evs"

subsection \<open>Example data\<close>

text \<open>
  The values of \<open>pd.to_datetime(s).date()\<close> on the strings of the examples, and an
  environment whose remote service answers every request alike. No example converts a
  string to a float, so the float parser of the examples knows none.
\<close>

definition sample_to_date :: "string \<Rightarrow> exn + pd_date" where
  "sample_to_date s =
     (if s = ''2024-06-01'' then Inr (PdDate (ymd2ord 2024 6 1))
      else if s = ''2024-05-30'' then Inr (PdDate (ymd2ord 2024 5 30))
      else if s = ''NaT'' then Inr PdNaT
      else Inl ParseFailed)"

definition sample_env :: "date \<Rightarrow> exn + pyval \<Rightarrow> env" where
  "sample_env today response =
     \<lparr>env_today = today, env_to_date = sample_to_date,
      env_get_json = (\<lambda>req. response), env_float_of_str = (\<lambda>s. None)\<rparr>"

text \<open>A response body of the shape the fetcher reads, around a timestamp array and a quote.\<close>

definition chart_body :: "pyval \<Rightarrow> pyval \<Rightarrow> pyval" where
  "chart_body timestamps quote =
     PDict [(''chart'', PDict [(''result'', PList [PDict
       [(''timestamp'', timestamps), (''indicators'', PDict [(''quote'', PList [quote])])]]),
       (''error'', PNone)])]"

definition one_day_quote :: pyval where
  "one_day_quote =
     PDict [(''open'', PList [PInt 1]), (''high'', PList [PInt 2]), (''low'', PList [PInt 1]),
            (''close'', PList [PInt 2]), (''volume'', PList [PInt 10])]"

text \<open>The day 2024-05-31 as epoch seconds, and as a date text where seconds belong.\<close>

definition one_day_body :: pyval where
  "one_day_body = chart_body (PList [PInt 1717113600]) one_day_quote"

definition text_timestamp_body :: pyval where
  "text_timestamp_body = chart_body (PList [PStr ''2024-05-31'']) one_day_quote"



definition row_a :: row where
  "row_a = (''BTC-USD'', ymd2ord 2024 5 30, Finite 1, Finite 2, Finite 1, Finite 2, Finite 10)"

definition row_a_again :: row where
  "row_a_again = (''BTC-USD'', ymd2ord 2024 5 30, Finite 7, Finite 8, Finite 7, Finite 8, Finite 70)"

definition row_b :: row where
  "row_b = (''BTC-USD'', ymd2ord 2024 5 31, Finite 2, Finite 3, Finite 2, Finite 3, Finite 20)"

definition row_c :: row where
  "row_c = (''ETH-USD'', ymd2ord 2024 5 31, Finite 5, Finite 6, Finite 5, Finite 6, Finite 30)"

text \<open>A database on which the first batch fails after one row and every later one succeeds.\<close>

definition first_insert_fails :: "nat \<Rightarrow> db_outcome" where
  "first_insert_fails n = (if n = 0 then Raises 1 else Succeeds)"

section \<open>Properties\<close>

subsection \<open>Dates of the examples\<close>

lemma ymd2ord_2024_06_01: "ymd2ord 2024 6 1 = 739038"
  by (simp add: ymd2ord_def days_before_year_def days_before_month_def is_leap_def)

lemma ymd2ord_examples:
  "ymd2ord 2014 6 4 = 735388" "ymd2ord 2014 6 2 = 735386" "ymd2ord 2024 6 2 = 739039"
  "ymd2ord 2024 5 30 = 739036" "ymd2ord 2024 5 31 = 739037"
  by (simp_all add: ymd2ord_def days_before_year_def days_before_month_def is_leap_def)

lemmas planner_defs =
  compute_start_date_def date_sub_def date_add_def valid_date_def MAXORDINAL_def

lemma normalize_today:
  "normalize_last_date sample_to_date (RawStr ''2024-06-01'') = Inr (Some (PdDate 739038))"
  by (simp add: normalize_last_date_def sample_to_date_def strip_def is_space_def lower_def
      lower_char_def ymd2ord_2024_06_01)

subsection \<open>Window planner\<close>

text \<open>
  Claim C1, as amended. The claim says that a watermark equal to today gives a
  degenerate window and no call of the range fetcher. The planner clamps the start to
  today (line 112), so the window is \<open>[today, today + 1)\<close>: for every symbol whose
  watermark equals today, the planned start is today, the fetch task calls the range
  fetcher on that one-day window and returns what it returns, and exactly one request,
  for that window, is sent.
\<close>

theorem C1_watermark_today_refetches_today:
  assumes "normalize_last_date (env_to_date env) raw = Inr (Some (PdDate (env_today env)))"
    and "valid_date (env_today env - 3650)" and "valid_date (env_today env + 1)"
  shows "compute_start_date (env_today env) (Some (PdDate (env_today env))) 10
           = Inr (env_today env)
       \<and> fst (fetch_worker env symbol raw)
           = map_sum id (Pair symbol)
               (fst (yahoo_fetch_range_rows env symbol (env_today env) (env_today env + 1)))
       \<and> snd (fetch_worker env symbol raw)
           = [\<lparr>req_symbol = symbol, req_start = env_today env, req_end = env_today env + 1\<rparr>]"
  using assms
  by (auto simp add: fetch_worker_def compute_start_date_def date_sub_def date_add_def
      yahoo_fetch_range_rows_def Let_def split: sum.splits prod.splits)

theorem C1_witness:
  "fst (fetch_worker (sample_env (ymd2ord 2024 6 1) (Inl RequestFailed)) ''BTC-USD''
          (RawStr ''2024-06-01'')) = Inr (''BTC-USD'', [])
   \<and> snd (fetch_worker (sample_env (ymd2ord 2024 6 1) (Inl RequestFailed)) ''BTC-USD''
          (RawStr ''2024-06-01''))
       = [\<lparr>req_symbol = ''BTC-USD'', req_start = 739038, req_end = 739039\<rparr>]"
  using C1_watermark_today_refetches_today
    [of "sample_env (ymd2ord 2024 6 1) (Inl RequestFailed)" "RawStr ''2024-06-01''" "''BTC-USD''"]
  by (simp add: sample_env_def normalize_today ymd2ord_2024_06_01 valid_date_def MAXORDINAL_def
      yahoo_fetch_range_rows_def)

theorem C1_counterexample:
  "compute_start_date (ymd2ord 2024 6 1) (Some (PdDate (ymd2ord 2024 6 1))) 10
     = Inr (ymd2ord 2024 6 1)
   \<and> date_add (ymd2ord 2024 6 1) 1 = Inr (ymd2ord 2024 6 1 + 1)
   \<and> ymd2ord 2024 6 1 < ymd2ord 2024 6 1 + 1
   \<and> snd (fetch_worker (sample_env (ymd2ord 2024 6 1) (Inl RequestFailed)) ''BTC-USD''
          (RawStr ''2024-06-01'')) \<noteq> []"
  by (simp add: fetch_worker_def sample_env_def normalize_today ymd2ord_2024_06_01 planner_defs
      yahoo_fetch_range_rows_def)

text \<open>
  Claim C2, as amended. With no watermark, a lookback of 10 years and today =
  2024-06-01, the planned start is today minus 3650 days, which is 2014-06-04 (three
  leap days lie in between), not 2014-06-02; the exclusive end is 2024-06-02.
\<close>

theorem C2_full_lookback_window:
  "compute_start_date (ymd2ord 2024 6 1) None 10 = Inr (ymd2ord 2014 6 4)
   \<and> ymd2ord 2014 6 4 = ymd2ord 2024 6 1 - 3650
   \<and> date_add (ymd2ord 2024 6 1) 1 = Inr (ymd2ord 2024 6 2)"
  by (simp add: ymd2ord_examples ymd2ord_2024_06_01 planner_defs)

theorem C2_counterexample:
  "compute_start_date (ymd2ord 2024 6 1) None 10 \<noteq> Inr (ymd2ord 2014 6 2)"
  by (simp add: ymd2ord_examples ymd2ord_2024_06_01 planner_defs)

text \<open>
  Claim C6, as amended. The claim gives the start as \<open>max(watermark + 1, horizon)\<close> for
  every watermark. The planner never lets the start pass today: whenever the horizon and
  the day after the watermark are dates, the start for a present watermark is
  \<open>min(today, max(watermark + 1, horizon))\<close>; for an absent watermark and a lookback of
  zero years or more it is the horizon; and for watermark 2024-05-30 and today
  2024-06-01 the window starts at 2024-05-31, before its exclusive end 2024-06-02.
\<close>

theorem C6_start_date:
  "(valid_date (today - 365 * years_back) \<and> valid_date (w + 1) \<longrightarrow>
      compute_start_date today (Some (PdDate w)) years_back
        = Inr (min today (max (w + 1) (today - 365 * years_back))))
   \<and> (valid_date (today - 365 * years_back) \<and> 0 \<le> years_back \<longrightarrow>
      compute_start_date today None years_back = Inr (today - 365 * years_back))
   \<and> compute_start_date (ymd2ord 2024 6 1) (Some (PdDate (ymd2ord 2024 5 30))) 10
        = Inr (ymd2ord 2024 5 31)
   \<and> date_add (ymd2ord 2024 6 1) 1 = Inr (ymd2ord 2024 6 2)
   \<and> ymd2ord 2024 5 31 < ymd2ord 2024 6 2"
  by (auto simp add: ymd2ord_examples ymd2ord_2024_06_01 planner_defs min_def max_def)

theorem C6_witness:
  "compute_start_date 739038 (Some (PdDate 739038)) 10 = Inr 739038
   \<and> compute_start_date 739038 (Some (PdDate 739036)) 10 = Inr 739037
   \<and> compute_start_date 739038 None 10 = Inr 735388"
  using C6_start_date [of 739038 10 739038] C6_start_date [of 739038 10 739036]
  by (simp add: valid_date_def MAXORDINAL_def)

theorem C6_counterexample:
  "compute_start_date (ymd2ord 2024 6 1) (Some (PdDate (ymd2ord 2024 6 1))) 10
     \<noteq> Inr (max (ymd2ord 2024 6 1 + 1) (ymd2ord 2024 6 1 - 10 * 365))"
  by (simp add: ymd2ord_2024_06_01 planner_defs)

subsection \<open>Range fetcher\<close>

text \<open>
  Claim C9. For every symbol and every window with \<open>start_date >= end_date_exclusive\<close>,
  the range fetcher returns the empty row list and sends no request.
\<close>

theorem C9_degenerate_window_no_request:
  "start_dt \<ge> end_dt \<Longrightarrow> yahoo_fetch_range_rows env symbol start_dt end_dt = (Inr [], [])"
  by (simp add: yahoo_fetch_range_rows_def)

theorem C9_witness:
  "yahoo_fetch_range_rows (sample_env (ymd2ord 2024 6 1) (Inr one_day_body)) ''BTC-USD''
     (ymd2ord 2024 6 2) (ymd2ord 2024 6 2) = (Inr [], [])"
  using C9_degenerate_window_no_request
    [of "ymd2ord 2024 6 2" "ymd2ord 2024 6 2" "sample_env (ymd2ord 2024 6 1) (Inr one_day_body)"
      "''BTC-USD''"]
  by simp

text \<open>
  What the two \<open>try\<close> blocks do catch: a failed request or an undecodable body, and a
  body without the expected keys, give the empty row list.
\<close>

lemma request_failure_gives_no_rows:
  assumes "start_dt < end_dt"
    and "env_get_json env \<lparr>req_symbol = symbol, req_start = start_dt, req_end = end_dt\<rparr> = Inl e"
  shows "fst (yahoo_fetch_range_rows env symbol start_dt end_dt) = Inr []"
  using assms by (simp add: yahoo_fetch_range_rows_def)

lemma unexpected_shape_gives_no_rows:
  assumes "start_dt < end_dt"
    and "env_get_json env \<lparr>req_symbol = symbol, req_start = start_dt, req_end = end_dt\<rparr> = Inr data"
    and "extract_result data = Inl e"
  shows "fst (yahoo_fetch_range_rows env symbol start_dt end_dt) = Inr []"
  using assms by (simp add: yahoo_fetch_range_rows_def)

text \<open>
  Claim C3 fails on the code. The conversions of the loop (lines 155-169) stand outside
  both \<open>try\<close> blocks. On a body of the expected shape whose timestamp array holds a date
  text instead of epoch seconds, \<open>datetime.utcfromtimestamp\<close> raises \<open>TypeError\<close>, and the
  exception leaves \<open>yahoo_fetch_range_rows\<close>: the call does not return an empty list.
\<close>

theorem C3_conversion_error_escapes:
  "fst (yahoo_fetch_range_rows (sample_env (ymd2ord 2024 6 1) (Inr text_timestamp_body))
          ''BTC-USD'' (ymd2ord 2024 5 31) (ymd2ord 2024 6 2)) = Inl TypeError"
  by (simp add: yahoo_fetch_range_rows_def sample_env_def ymd2ord_examples
      text_timestamp_body_def one_day_quote_def chart_body_def extract_result_def
      parse_quote_def quote_array_def row_of_record_def)



lemma row_without_volume:
  assumes "utc_date t = Inr dt" and "py_float sf o' = Inr fo" and "py_float sf h = Inr fh"
    and "py_float sf l = Inr fl" and "py_float sf c = Inr fc"
  shows "row_of_record sf symbol (t, o', h, l, c, PNone)
           = Inr (Some (symbol, dt, fo, fh, fl, fc, Finite 0))"
  using assms by (auto simp add: row_of_record_def)








subsection \<open>Watermark normalization\<close>

text \<open>
  What \<open>_normalize_last_date\<close> does achieve: it never raises, and a missing cell, a blank
  cell, the text \<open>none\<close> in any case and every text the parser rejects become \<open>None\<close>, for
  which the task plans the full lookback window.
\<close>

lemma normalize_never_raises: "\<exists>r. normalize_last_date to_date raw = Inr r"
  by (simp add: normalize_last_date_def Let_def split: raw_last_date.splits sum.splits)

lemma normalize_unparseable:
  assumes "raw = RawNaN \<or> (\<exists>text. raw = RawStr text \<and>
             (strip text = [] \<or> lower (strip text) = ''none'' \<or> (\<exists>e. to_date (strip text) = Inl e)))"
  shows "normalize_last_date to_date raw = Inr None"
  using assms by (auto simp add: normalize_last_date_def Let_def)

lemma never_ingested_plans_full_lookback:
  assumes "normalize_last_date (env_to_date env) raw = Inr None"
    and "valid_date (env_today env - 3650)" and "valid_date (env_today env + 1)"
  shows "snd (fetch_worker env symbol raw)
           = [\<lparr>req_symbol = symbol, req_start = env_today env - 3650, req_end = env_today env + 1\<rparr>]"
  using assms
  by (auto simp add: fetch_worker_def planner_defs yahoo_fetch_range_rows_def Let_def
      split: sum.splits prod.splits)

text \<open>
  Claim C10 fails on the code. The text \<open>NaT\<close> is not caught by \<open>pd.isna\<close> (it is a
  string), is not blank and is not \<open>none\<close>; pandas parses it without raising, to \<open>NaT\<close>,
  and \<open>NaT.date()\<close> is \<open>NaT\<close>. So normalization returns \<open>NaT\<close>, neither a calendar date nor
  \<open>None\<close>, and the task raises \<open>TypeError\<close> in \<open>_compute_start_date\<close> instead of planning
  the full lookback window.
\<close>

theorem C10_not_a_time_text_escapes:
  "normalize_last_date sample_to_date (RawStr ''NaT'') = Inr (Some PdNaT)
   \<and> fetch_worker (sample_env (ymd2ord 2024 6 1) (Inr one_day_body)) ''BTC-USD'' (RawStr ''NaT'')
       = (Inl TypeError, [])"
  by (simp add: normalize_last_date_def sample_to_date_def strip_def is_space_def lower_def
      lower_char_def fetch_worker_def sample_env_def planner_defs ymd2ord_2024_06_01)

subsection \<open>Persistence writer\<close>

lemma committed_insert: "committed (insert_or_ignore r c) = committed c"
  by (simp add: insert_or_ignore_def)

lemma visible_insert:
  "visible (insert_or_ignore r c) =
     (if row_key r \<in> set (map row_key (visible c)) then visible c else visible c @ [r])"
  by (simp add: insert_or_ignore_def visible_def)

lemma distinct_insert:
  "distinct (map row_key (visible c)) \<Longrightarrow> distinct (map row_key (visible (insert_or_ignore r c)))"
  by (simp add: visible_insert)

lemma committed_executemany: "committed (executemany rows c) = committed c"
  unfolding executemany_def by (induction rows arbitrary: c) (simp_all add: committed_insert)

lemma distinct_executemany:
  "distinct (map row_key (visible c)) \<Longrightarrow> distinct (map row_key (visible (executemany rows c)))"
  unfolding executemany_def by (induction rows arbitrary: c) (simp_all add: distinct_insert)

lemma find_app: "find P (xs @ ys) = (case find P xs of None \<Rightarrow> find P ys | Some x \<Rightarrow> Some x)"
  by (induction xs) auto

lemma find_insert:
  "find (\<lambda>x. row_key x = k) (visible (insert_or_ignore r c)) = find (\<lambda>x. row_key x = k) (visible c @ [r])"
proof (cases "row_key r \<in> set (map row_key (visible c))")
  case False
  then show ?thesis by (simp add: visible_insert)
next
  case True
  show ?thesis
  proof (cases "row_key r = k")
    case False
    then show ?thesis using True by (simp add: visible_insert find_app split: option.splits)
  next
    case k: True
    from True k have "\<exists>x\<in>set (visible c). row_key x = k" by auto
    then have "find (\<lambda>x. row_key x = k) (visible c) \<noteq> None"
      using find_None_iff [of "\<lambda>x. row_key x = k" "visible c"] by blast
    then show ?thesis using True by (auto simp add: visible_insert find_app split: option.splits)
  qed
qed

lemma find_executemany:
  "find (\<lambda>x. row_key x = k) (visible (executemany rows c)) = find (\<lambda>x. row_key x = k) (visible c @ rows)"
  unfolding executemany_def
proof (induction rows arbitrary: c)
  case Nil
  then show ?case by simp
next
  case (Cons r rows)
  have "find (\<lambda>x. row_key x = k) (visible (fold insert_or_ignore rows (insert_or_ignore r c)))
        = find (\<lambda>x. row_key x = k) (visible (insert_or_ignore r c) @ rows)"
    by (rule Cons.IH)
  also have "\<dots> = find (\<lambda>x. row_key x = k) ((visible c @ [r]) @ rows)"
    by (simp only: find_app [of _ _ rows] find_insert)
  finally show ?case by simp
qed

lemma visible_commit: "visible (commit c) = visible c" "committed (commit c) = visible c" "pending (commit c) = []"
  by (simp_all add: commit_def visible_def)


lemma writer_loop_returns:
  "\<exists>w'. writer_loop outcome n w (map Some batches @ [None]) = Some (w', [])
        \<and> (\<exists>new. committed (conn w') = committed (conn w) @ new)
        \<and> (distinct (map row_key (visible (conn w))) \<longrightarrow> distinct (map row_key (visible (conn w'))))"
proof (induction batches arbitrary: n w)
  case Nil
  then show ?case by simp
next
  case (Cons rows batches)
  show ?case
  proof (cases "rows = []")
    case True
    then show ?thesis using Cons.IH [of "Suc n" w] by simp
  next
    case False
    show ?thesis
    proof (cases "outcome n")
      case Succeeds
      let ?w = "w\<lparr>conn := commit (executemany rows (conn w)),
                  total_written := total_written w + length rows\<rparr>"
      from Cons.IH [of "Suc n" ?w] obtain w' new where
        w': "writer_loop outcome (Suc n) ?w (map Some batches @ [None]) = Some (w', [])"
        and new: "committed (conn w') = committed (conn ?w) @ new"
        and d: "distinct (map row_key (visible (conn ?w))) \<longrightarrow> distinct (map row_key (visible (conn w')))"
        by blast
      have "committed (conn ?w) = committed (conn w) @ pending (executemany rows (conn w))"
        by (simp add: commit_def committed_executemany)
      with new have "\<exists>new'. committed (conn w') = committed (conn w) @ new'" by simp
      moreover have "distinct (map row_key (visible (conn w))) \<longrightarrow> distinct (map row_key (visible (conn w')))"
        using d by (simp add: visible_commit distinct_executemany)
      ultimately show ?thesis using w' False Succeeds by simp
    next
      case (Raises k)
      let ?w = "w\<lparr>conn := executemany (take k rows) (conn w),
                  printed := printed w @ [BatchFailed]\<rparr>"
      from Cons.IH [of "Suc n" ?w] obtain w' new where
        w': "writer_loop outcome (Suc n) ?w (map Some batches @ [None]) = Some (w', [])"
        and new: "committed (conn w') = committed (conn ?w) @ new"
        and d: "distinct (map row_key (visible (conn ?w))) \<longrightarrow> distinct (map row_key (visible (conn w')))"
        by blast
      from new have "\<exists>new'. committed (conn w') = committed (conn w) @ new'"
        by (simp add: committed_executemany)
      moreover have "distinct (map row_key (visible (conn w))) \<longrightarrow> distinct (map row_key (visible (conn w')))"
        using d by (simp add: distinct_executemany)
      ultimately show ?thesis using w' False Raises by simp
    qed
  qed
qed

lemma writer_loop_first_wins:
  "pending (conn w) = [] \<Longrightarrow>
   writer_loop (\<lambda>n. Succeeds) n w (map Some batches @ [None]) = Some (w', rest) \<Longrightarrow>
   find (\<lambda>x. row_key x = k) (committed (conn w')) =
     find (\<lambda>x. row_key x = k) (committed (conn w) @ concat batches)"
proof (induction batches arbitrary: n w)
  case Nil
  then show ?case by simp
next
  case (Cons rows batches)
  show ?case
  proof (cases "rows = []")
    case True
    then show ?thesis using Cons.IH [of w "Suc n"] Cons.prems by simp
  next
    case False
    let ?w = "w\<lparr>conn := commit (executemany rows (conn w)),
                total_written := total_written w + length rows\<rparr>"
    have p: "pending (conn ?w) = []" by (simp add: visible_commit)
    have l: "writer_loop (\<lambda>n. Succeeds) (Suc n) ?w (map Some batches @ [None]) = Some (w', rest)"
      using Cons.prems(2) False by simp
    have v: "visible (conn w) = committed (conn w)" using Cons.prems(1) by (simp add: visible_def)
    have "find (\<lambda>x. row_key x = k) (committed (conn w')) =
          find (\<lambda>x. row_key x = k) (committed (conn ?w) @ concat batches)"
      by (rule Cons.IH [OF p l])
    also have "\<dots> = find (\<lambda>x. row_key x = k) ((committed (conn w) @ rows) @ concat batches)"
      by (simp only: find_app [of _ _ "concat batches"])
         (simp add: visible_commit find_executemany v)
    finally show ?thesis by simp
  qed
qed

text \<open>
  Claim C4. Inserting a row whose \<open>(symbol, date)\<close> key the connection already sees
  changes nothing. For every store, every sequence of batches followed by the
  end-of-stream value, and whatever the database does with each batch, the writer
  returns, and every row of the store it started from is still there, unchanged and in
  place; if the keys of the store were unique they still are, so each key has exactly one
  row; and when every batch goes through, the row stored under a key is the first row
  with that key in the order of ingestion (the store, then the batches in order).
\<close>

theorem C4_first_write_wins:
  "(row_key r \<in> set (map row_key (visible c)) \<longrightarrow> insert_or_ignore r c = c)
   \<and> (\<exists>res. db_writer outcome store0 (map Some batches @ [None]) = Some res
         \<and> (\<exists>new. store res = store0 @ new)
         \<and> (distinct (map row_key store0) \<longrightarrow> distinct (map row_key (store res)))
         \<and> (outcome = (\<lambda>n. Succeeds) \<longrightarrow>
              (\<forall>k. find (\<lambda>x. row_key x = k) (store res) =
                   find (\<lambda>x. row_key x = k) (store0 @ concat batches))))"
proof -
  let ?init = "\<lparr>conn = \<lparr>committed = store0, pending = []\<rparr>, total_written = 0, printed = []\<rparr>"
  from writer_loop_returns [of outcome 0 ?init batches] obtain w' where
    w': "writer_loop outcome 0 ?init (map Some batches @ [None]) = Some (w', [])"
    and n: "\<exists>new. committed (conn w') = committed (conn ?init) @ new"
    and d: "distinct (map row_key (visible (conn ?init))) \<longrightarrow> distinct (map row_key (visible (conn w')))"
    by blast
  from n have new: "\<exists>new. committed (conn w') = store0 @ new" by simp
  have d': "distinct (map row_key store0) \<longrightarrow> distinct (map row_key (committed (conn w')))"
    using d by (simp add: visible_def)
  have f: "outcome = (\<lambda>n. Succeeds) \<longrightarrow>
              (\<forall>k. find (\<lambda>x. row_key x = k) (committed (conn w')) =
                   find (\<lambda>x. row_key x = k) (store0 @ concat batches))"
    using writer_loop_first_wins [of ?init 0 batches w' "[]"] w' by auto
  have "insert_or_ignore r c = c" if "row_key r \<in> set (map row_key (visible c))"
    using that by (simp add: insert_or_ignore_def)
  then show ?thesis using w' new d' f by (simp add: db_writer_def)
qed

theorem C4_witness:
  "insert_or_ignore row_a_again \<lparr>committed = [row_a], pending = []\<rparr>
     = \<lparr>committed = [row_a], pending = []\<rparr>
   \<and> map_option store (db_writer (\<lambda>n. Succeeds) [row_a] [Some [row_a_again, row_b], None])
       = Some [row_a, row_b]
   \<and> distinct (map row_key [row_a, row_b])
   \<and> find (\<lambda>x. row_key x = (''BTC-USD'', 739036)) ([row_a] @ concat [[row_a_again, row_b]])
       = Some row_a"
  using C4_first_write_wins
    [of row_a_again "\<lparr>committed = [row_a], pending = []\<rparr>" "\<lambda>n. Succeeds" "[row_a]"
      "[[row_a_again, row_b]]"]
  by (simp add: db_writer_def executemany_def insert_or_ignore_def visible_def commit_def
      row_key_def row_a_def row_a_again_def row_b_def ymd2ord_examples)

text \<open>
  Claim C8 fails on the code. The handler of line 78 prints and goes on, and the size of
  the failed batch is not added to the total; but it does not roll back, so the rows of
  the failed batch that were executed before the exception stay in the open transaction
  and the commit of the next batch makes them durable. With a first batch
  \<open>[row_a, row_b]\<close> failing after one row and a second batch \<open>[row_c]\<close>, the store ends
  with \<open>row_a\<close> of the failed batch in it, while the reported total is 1.
\<close>

theorem C8_failed_batch_leaks_rows:
  "map_option store
       (db_writer first_insert_fails [] [Some [row_a, row_b], Some [row_c], None])
     = Some [row_a, row_c]
   \<and> map_option reported_total
       (db_writer first_insert_fails [] [Some [row_a, row_b], Some [row_c], None])
     = Some 1
   \<and> map_option writer_output
       (db_writer first_insert_fails [] [Some [row_a, row_b], Some [row_c], None])
     = Some [BatchFailed, TotalWritten 1]"
  by (simp add: db_writer_def first_insert_fails_def executemany_def insert_or_ignore_def
      visible_def commit_def row_key_def row_a_def row_b_def row_c_def ymd2ord_examples)

subsection \<open>Orchestrator\<close>

lemma collect_trace:
  "\<exists>T. trace (collect n futs s) = trace s @ T \<and> PutEndOfStream \<notin> set T
       \<and> (\<forall>p\<in>set futs. FutureDone (fst p) \<in> set T)"
proof (induction n futs s rule: collect.induct)
  case (1 n s)
  then show ?case by simp
next
  case (2 n i e futs s)
  then obtain T where
    "trace (collect n futs (s\<lparr>trace := trace s @ [FutureDone i, WorkerCrashed]\<rparr>))
       = (trace s @ [FutureDone i, WorkerCrashed]) @ T"
    "PutEndOfStream \<notin> set T" "\<forall>p\<in>set futs. FutureDone (fst p) \<in> set T"
    by auto
  then show ?case
    by (intro exI [of _ "[FutureDone i, WorkerCrashed] @ T"]) simp
next
  case (3 n i symbol rows futs s)
  let ?total = "total_rows s + length rows"
  let ?done = "completed s + 1"
  let ?step = "[FutureDone i] @ (if length rows > 0 then [Put rows] else [])
           @ (if ?done mod 200 = 0 \<or> ?done = n then [Progress ?done ?total] else [])"
  let ?s = "\<lparr>total_rows = ?total, completed = ?done, trace = trace s @ ?step\<rparr>"
  from 3 [OF refl refl refl] obtain T where
    T: "trace (collect n futs ?s) = trace ?s @ T"
    "PutEndOfStream \<notin> set T" "\<forall>p\<in>set futs. FutureDone (fst p) \<in> set T"
    by blast
  have eq: "collect n ((i, Inr (symbol, rows)) # futs) s = collect n futs ?s"
    by (simp add: Let_def)
  have t: "trace ?s = trace s @ ?step" by simp
  show ?case
  proof (intro exI [of _ "?step @ T"] conjI)
    show "trace (collect n ((i, Inr (symbol, rows)) # futs) s) = trace s @ ?step @ T"
      by (simp only: eq T(1) t append_assoc)
    show "PutEndOfStream \<notin> set (?step @ T)" using T(2) by simp
    show "\<forall>p\<in>set ((i, Inr (symbol, rows)) # futs). FutureDone (fst p) \<in> set (?step @ T)"
      using T(3) by simp
  qed
qed

lemma queue_of_batches:
  "PutEndOfStream \<notin> set evs \<Longrightarrow> \<exists>batches. queue_of evs = map Some batches"
proof (induction evs rule: queue_of.induct)
  case 1
  then show ?case by simp
next
  case (2 rows evs)
  then obtain batches where "queue_of evs = map Some batches" by auto
  then have "queue_of (Put rows # evs) = map Some (rows # batches)" by simp
  then show ?case by blast
next
  case (3 evs)
  then show ?case by simp
qed simp_all

lemma queue_of_append: "queue_of (xs @ ys) = queue_of xs @ queue_of ys"
  by (induction xs rule: queue_of.induct) simp_all

lemma writer_loop_returns0:
  "\<exists>w'. writer_loop outcome n w (map Some batches @ [None]) = Some (w', [])"
  by (induction batches arbitrary: n w) (auto split: db_outcome.splits)

lemma collect_puts:
  "\<exists>T. trace (collect n futs s) = trace s @ T
       \<and> (\<forall>i symbol rows. (i, Inr (symbol, rows)) \<in> set futs \<longrightarrow> rows \<noteq> [] \<longrightarrow> Put rows \<in> set T)
       \<and> (\<forall>rows. Put rows \<in> set T \<longrightarrow> rows \<noteq> [])"
proof (induction n futs s rule: collect.induct)
  case (1 n s)
  then show ?case by simp
next
  case (2 n i e futs s)
  let ?s = "s\<lparr>trace := trace s @ [FutureDone i, WorkerCrashed]\<rparr>"
  from 2 obtain T where
    T: "trace (collect n futs ?s) = trace ?s @ T"
    "\<forall>i symbol rows. (i, Inr (symbol, rows)) \<in> set futs \<longrightarrow> rows \<noteq> [] \<longrightarrow> Put rows \<in> set T"
    "\<forall>rows. Put rows \<in> set T \<longrightarrow> rows \<noteq> []"
    by blast
  show ?case
  proof (intro exI [of _ "[FutureDone i, WorkerCrashed] @ T"] conjI)
    show "trace (collect n ((i, Inl e) # futs) s) = trace s @ [FutureDone i, WorkerCrashed] @ T"
      using T(1) by simp
    show "\<forall>ia symbol rows. (ia, Inr (symbol, rows)) \<in> set ((i, Inl e) # futs) \<longrightarrow> rows \<noteq> []
            \<longrightarrow> Put rows \<in> set ([FutureDone i, WorkerCrashed] @ T)"
      using T(2) by simp
    show "\<forall>rows. Put rows \<in> set ([FutureDone i, WorkerCrashed] @ T) \<longrightarrow> rows \<noteq> []"
      using T(3) by simp
  qed
next
  case (3 n i symbol rows futs s)
  let ?total = "total_rows s + length rows"
  let ?done = "completed s + 1"
  let ?step = "[FutureDone i] @ (if length rows > 0 then [Put rows] else [])
           @ (if ?done mod 200 = 0 \<or> ?done = n then [Progress ?done ?total] else [])"
  let ?s = "\<lparr>total_rows = ?total, completed = ?done, trace = trace s @ ?step\<rparr>"
  from 3 [OF refl refl refl] obtain T where
    T: "trace (collect n futs ?s) = trace ?s @ T"
    "\<forall>i symbol rows. (i, Inr (symbol, rows)) \<in> set futs \<longrightarrow> rows \<noteq> [] \<longrightarrow> Put rows \<in> set T"
    "\<forall>rows. Put rows \<in> set T \<longrightarrow> rows \<noteq> []"
    by blast
  have eq: "collect n ((i, Inr (symbol, rows)) # futs) s = collect n futs ?s"
    by (simp add: Let_def)
  have t: "trace ?s = trace s @ ?step" by simp
  show ?case
  proof (intro exI [of _ "?step @ T"] conjI)
    show "trace (collect n ((i, Inr (symbol, rows)) # futs) s) = trace s @ ?step @ T"
      by (simp only: eq T(1) t append_assoc)
    show "\<forall>ia symbola rowsa. (ia, Inr (symbola, rowsa)) \<in> set ((i, Inr (symbol, rows)) # futs)
            \<longrightarrow> rowsa \<noteq> [] \<longrightarrow> Put rowsa \<in> set (?step @ T)"
      using T(2) by auto
    show "\<forall>rowsa. Put rowsa \<in> set (?step @ T) \<longrightarrow> rowsa \<noteq> []"
      using T(3) by auto
  qed
qed

lemma queue_of_Some: "Some rows \<in> set (queue_of evs) \<longleftrightarrow> Put rows \<in> set evs"
  by (induction evs rule: queue_of.induct) auto

lemma key_after_insert: "row_key r \<in> set (map row_key (visible (insert_or_ignore r c)))"
  by (simp add: visible_insert)

lemma keys_mono_insert:
  "k \<in> set (map row_key (visible c)) \<Longrightarrow> k \<in> set (map row_key (visible (insert_or_ignore r c)))"
  by (auto simp add: visible_insert)

lemma keys_mono_executemany:
  "k \<in> set (map row_key (visible c)) \<Longrightarrow> k \<in> set (map row_key (visible (executemany rows c)))"
proof (induction rows arbitrary: c)
  case Nil
  then show ?case by (simp add: executemany_def)
next
  case (Cons a rows)
  have "executemany (a # rows) c = executemany rows (insert_or_ignore a c)"
    by (simp add: executemany_def)
  then show ?case using Cons.IH [OF keys_mono_insert [OF Cons.prems]] by simp
qed

lemma key_after_executemany:
  "r \<in> set rows \<Longrightarrow> row_key r \<in> set (map row_key (visible (executemany rows c)))"
proof (induction rows arbitrary: c)
  case Nil
  then show ?case by simp
next
  case (Cons a rows)
  have unfold: "executemany (a # rows) c = executemany rows (insert_or_ignore a c)"
    by (simp add: executemany_def)
  show ?case
  proof (cases "r = a")
    case True
    then show ?thesis
      unfolding unfold using keys_mono_executemany [OF key_after_insert [of a c], of rows] by simp
  next
    case False
    with Cons.prems have "r \<in> set rows" by simp
    then show ?thesis unfolding unfold by (rule Cons.IH)
  qed
qed

lemma writer_loop_step:
  "\<exists>w1. writer_loop outcome n w (Some rows # queue) = writer_loop outcome (Suc n) w1 queue"
proof (cases "rows = []")
  case True
  then show ?thesis by auto
next
  case False
  then show ?thesis by (cases "outcome n") auto
qed

lemma writer_loop_grows:
  assumes "writer_loop outcome n w (map Some batches @ [None]) = Some (w', rest)"
  shows "\<exists>new. committed (conn w') = committed (conn w) @ new"
  using writer_loop_returns [of outcome n w batches] assms by auto

lemma writer_loop_keeps:
  "writer_loop outcome n w (map Some batches @ [None]) = Some (w', rest) \<Longrightarrow>
   i < length batches \<Longrightarrow> outcome (n + i) = Succeeds \<Longrightarrow> r \<in> set (batches ! i) \<Longrightarrow>
   row_key r \<in> set (map row_key (committed (conn w')))"
proof (induction batches arbitrary: n w i)
  case Nil
  then show ?case by simp
next
  case (Cons rows batches)
  show ?case
  proof (cases i)
    case 0
    with Cons.prems have r: "r \<in> set rows" and ok: "outcome n = Succeeds" by simp_all
    from r have ne: "rows \<noteq> []" by auto
    let ?w = "w\<lparr>conn := commit (executemany rows (conn w)),
                total_written := total_written w + length rows\<rparr>"
    have "writer_loop outcome (Suc n) ?w (map Some batches @ [None]) = Some (w', rest)"
      using Cons.prems(1) ne ok by simp
    from writer_loop_grows [OF this] obtain new where
      "committed (conn w') = committed (conn ?w) @ new" by blast
    moreover have "row_key r \<in> set (map row_key (committed (conn ?w)))"
      using key_after_executemany [OF r, of "conn w"] by (simp add: visible_commit)
    ultimately show ?thesis by auto
  next
    case (Suc j)
    from writer_loop_step [of outcome n w rows "map Some batches @ [None]"] obtain w1 where
      "writer_loop outcome n w (Some rows # map Some batches @ [None])
         = writer_loop outcome (Suc n) w1 (map Some batches @ [None])" by blast
    with Cons.prems(1) have
      l: "writer_loop outcome (Suc n) w1 (map Some batches @ [None]) = Some (w', rest)" by simp
    show ?thesis
      using Cons.IH [OF l, of j] Cons.prems(2-4) Suc by simp
  qed
qed

lemma upt_shift: "[0..<Suc k] = 0 # map Suc [0..<k]"
proof -
  have "[0..<Suc k] = 0 # [Suc 0..<Suc k]" by (rule upt_conv_Cons) simp
  then show ?thesis by (simp only: map_Suc_upt)
qed

lemma writer_loop_accounts:
  "\<forall>b\<in>set batches. b \<noteq> [] \<Longrightarrow>
   writer_loop outcome n w (map Some batches @ [None]) = Some (w', rest) \<Longrightarrow>
   total_written w' = total_written w
       + sum_list (map (\<lambda>i. if outcome (n + i) = Succeeds then length (batches ! i) else 0)
                    [0..<length batches])
   \<and> printed w' = printed w
       @ replicate (length (filter (\<lambda>i. outcome (n + i) \<noteq> Succeeds) [0..<length batches]))
           BatchFailed"
proof (induction batches arbitrary: n w)
  case Nil
  then show ?case by simp
next
  case (Cons rows batches)
  from Cons.prems(1) have ne: "rows \<noteq> []" and rest: "\<forall>b\<in>set batches. b \<noteq> []" by simp_all
  show ?case
  proof (cases "outcome n")
    case Succeeds
    let ?w = "w\<lparr>conn := commit (executemany rows (conn w)),
                total_written := total_written w + length rows\<rparr>"
    have l: "writer_loop outcome (Suc n) ?w (map Some batches @ [None]) = Some (w', rest)"
      using Cons.prems(2) ne Succeeds by simp
    from Cons.IH [OF rest l] show ?thesis
      using Succeeds
      by (simp only: length_Cons upt_shift) (simp add: comp_def filter_map cong: if_cong)
  next
    case (Raises k)
    let ?w = "w\<lparr>conn := executemany (take k rows) (conn w),
                printed := printed w @ [BatchFailed]\<rparr>"
    have l: "writer_loop outcome (Suc n) ?w (map Some batches @ [None]) = Some (w', rest)"
      using Cons.prems(2) ne Raises by simp
    from Cons.IH [OF rest l] show ?thesis
      using Raises
      by (simp only: length_Cons upt_shift) (simp add: comp_def filter_map replicate_app_Cons_same cong: if_cong)
  qed
qed


text \<open>
  Claim C7. In every run that dispatches tasks (some symbol, a pool of at least one
  worker; \<open>as_completed\<close> yields the future of every task), the main thread puts the
  end-of-stream value exactly once, as the last thing it does and after the future of
  every dispatched task has finished, by return or by crash; before it, the non-empty
  batch of every task that returned has been put, and the queue holds exactly the
  batches put, then the end-of-stream value. The writer, whatever the database does with
  each batch, returns only at that value with nothing left unread, having handled every
  batch: the rows of each batch the database accepted are in the store it leaves, the
  total it reports is the size of those batches, and it has printed one failure line for
  each of the others.
\<close>

theorem C7_end_of_stream_last:
  assumes "plan \<noteq> []" and "0 < workers" and "set order = {..<length plan}"
  shows "\<exists>s pre batches res.
           update_data env workers plan order = Inr s
         \<and> trace s = pre @ [PutEndOfStream]
         \<and> PutEndOfStream \<notin> set pre
         \<and> (\<forall>i<length plan. FutureDone i \<in> set pre)
         \<and> (\<forall>i<length plan. \<forall>symbol rows.
               fst (fetch_worker env (fst (plan ! i)) (snd (plan ! i))) = Inr (symbol, rows)
               \<longrightarrow> rows \<noteq> [] \<longrightarrow> Put rows \<in> set pre)
         \<and> queue_of (trace s) = map Some batches @ [None]
         \<and> (\<forall>rows. rows \<in> set batches \<longleftrightarrow> Put rows \<in> set pre)
         \<and> db_writer outcome store0 (queue_of (trace s)) = Some res
         \<and> unread res = []
         \<and> (\<forall>n<length batches. outcome n = Succeeds \<longrightarrow>
               (\<forall>r\<in>set (batches ! n). row_key r \<in> set (map row_key (store res))))
         \<and> reported_total res
             = sum_list (map (\<lambda>n. if outcome n = Succeeds then length (batches ! n) else 0)
                 [0..<length batches])
         \<and> writer_output res
             = replicate (length (filter (\<lambda>n. outcome n \<noteq> Succeeds) [0..<length batches]))
                 BatchFailed
               @ [TotalWritten (reported_total res)]"
proof -
  let ?futures = "map (\<lambda>(symbol, last_date). fst (fetch_worker env symbol last_date)) plan"
  let ?init = "\<lparr>total_rows = 0, completed = 0, trace = []\<rparr>"
  let ?done = "map (\<lambda>i. (i, ?futures ! i)) order"
  let ?s = "collect (length plan) ?done ?init"
  let ?pre = "trace ?s"
  from collect_trace [where n = "length plan" and futs = ?done and s = ?init] have
    no_eos: "PutEndOfStream \<notin> set ?pre"
    and fin: "\<forall>p\<in>set ?done. FutureDone (fst p) \<in> set ?pre"
    by auto
  from collect_puts [where n = "length plan" and futs = ?done and s = ?init] have
    puts: "\<forall>i symbol rows. (i, Inr (symbol, rows)) \<in> set ?done \<longrightarrow> rows \<noteq> []
             \<longrightarrow> Put rows \<in> set ?pre"
    and nonempty: "\<forall>rows. Put rows \<in> set ?pre \<longrightarrow> rows \<noteq> []"
    by auto
  have member: "(i, ?futures ! i) \<in> set ?done" if "i < length plan" for i
  proof -
    from that assms(3) have "i \<in> set order" by simp
    then show ?thesis by simp
  qed
  have all: "\<forall>i<length plan. FutureDone i \<in> set ?pre"
  proof (intro allI impI)
    fix i assume "i < length plan"
    from member [OF this] fin show "FutureDone i \<in> set ?pre" by fastforce
  qed
  have put_all: "\<forall>i<length plan. \<forall>symbol rows.
               fst (fetch_worker env (fst (plan ! i)) (snd (plan ! i))) = Inr (symbol, rows)
               \<longrightarrow> rows \<noteq> [] \<longrightarrow> Put rows \<in> set ?pre"
  proof (intro allI impI)
    fix i symbol rows
    assume i: "i < length plan"
      and r: "fst (fetch_worker env (fst (plan ! i)) (snd (plan ! i))) = Inr (symbol, rows)"
      and ne: "rows \<noteq> []"
    from i have "?futures ! i = fst (fetch_worker env (fst (plan ! i)) (snd (plan ! i)))"
      by (simp add: case_prod_beta)
    with r member [OF i] have "(i, Inr (symbol, rows)) \<in> set ?done" by simp
    with puts ne show "Put rows \<in> set ?pre" by blast
  qed
  have w: "\<not> min workers (int (length plan)) \<le> 0"
    using assms(1,2) by (cases plan) (simp_all add: min_def)
  have u: "update_data env workers plan order = Inr (?s\<lparr>trace := ?pre @ [PutEndOfStream]\<rparr>)"
    using assms(1) w by (simp add: update_data_def Let_def)
  from queue_of_batches [OF no_eos] obtain batches where b: "queue_of ?pre = map Some batches"
    by blast
  have q: "queue_of (?pre @ [PutEndOfStream]) = map Some batches @ [None]"
    by (simp add: queue_of_append b)
  have mem: "\<forall>rows. rows \<in> set batches \<longleftrightarrow> Put rows \<in> set ?pre"
  proof
    fix rows
    have "rows \<in> set batches \<longleftrightarrow> Some rows \<in> set (map Some batches)" by auto
    also have "\<dots> \<longleftrightarrow> Put rows \<in> set ?pre" by (simp only: b [symmetric] queue_of_Some)
    finally show "rows \<in> set batches \<longleftrightarrow> Put rows \<in> set ?pre" .
  qed
  have ne_batches: "\<forall>rows\<in>set batches. rows \<noteq> []" using mem nonempty by blast
  let ?w = "\<lparr>conn = \<lparr>committed = store0, pending = []\<rparr>, total_written = 0, printed = []\<rparr>"
  from writer_loop_returns0 obtain w' where
    loop: "writer_loop outcome 0 ?w (map Some batches @ [None]) = Some (w', [])"
    by blast
  let ?res = "\<lparr>store = committed (conn w'), reported_total = total_written w',
               writer_output = printed w' @ [TotalWritten (total_written w')], unread = []\<rparr>"
  have res: "db_writer outcome store0 (map Some batches @ [None]) = Some ?res"
    using loop by (simp add: db_writer_def)
  have keeps: "\<forall>n<length batches. outcome n = Succeeds \<longrightarrow>
               (\<forall>r\<in>set (batches ! n). row_key r \<in> set (map row_key (store ?res)))"
    using writer_loop_keeps [OF loop] by simp
  from writer_loop_accounts [OF ne_batches loop] have
    total: "reported_total ?res
             = sum_list (map (\<lambda>n. if outcome n = Succeeds then length (batches ! n) else 0)
                 [0..<length batches])"
    and out: "writer_output ?res
             = replicate (length (filter (\<lambda>n. outcome n \<noteq> Succeeds) [0..<length batches]))
                 BatchFailed
               @ [TotalWritten (reported_total ?res)]"
    by simp_all
  show ?thesis
  proof (intro exI [of _ "?s\<lparr>trace := ?pre @ [PutEndOfStream]\<rparr>"] exI [of _ ?pre]
      exI [of _ batches] exI [of _ ?res] conjI)
    show "update_data env workers plan order = Inr (?s\<lparr>trace := ?pre @ [PutEndOfStream]\<rparr>)"
      by (rule u)
    show "trace (?s\<lparr>trace := ?pre @ [PutEndOfStream]\<rparr>) = ?pre @ [PutEndOfStream]" by simp
    show "PutEndOfStream \<notin> set ?pre" by (rule no_eos)
    show "\<forall>i<length plan. FutureDone i \<in> set ?pre" by (rule all)
    show "\<forall>i<length plan. \<forall>symbol rows.
               fst (fetch_worker env (fst (plan ! i)) (snd (plan ! i))) = Inr (symbol, rows)
               \<longrightarrow> rows \<noteq> [] \<longrightarrow> Put rows \<in> set ?pre" by (rule put_all)
    show "queue_of (trace (?s\<lparr>trace := ?pre @ [PutEndOfStream]\<rparr>)) = map Some batches @ [None]"
      using q by simp
    show "\<forall>rows. rows \<in> set batches \<longleftrightarrow> Put rows \<in> set ?pre" by (rule mem)
    show "db_writer outcome store0 (queue_of (trace (?s\<lparr>trace := ?pre @ [PutEndOfStream]\<rparr>)))
            = Some ?res"
      using q res by simp
    show "unread ?res = []" by simp
    show "\<forall>n<length batches. outcome n = Succeeds \<longrightarrow>
               (\<forall>r\<in>set (batches ! n). row_key r \<in> set (map row_key (store ?res)))"
      by (rule keeps)
    show "reported_total ?res
             = sum_list (map (\<lambda>n. if outcome n = Succeeds then length (batches ! n) else 0)
                 [0..<length batches])" by (rule total)
    show "writer_output ?res
             = replicate (length (filter (\<lambda>n. outcome n \<noteq> Succeeds) [0..<length batches]))
                 BatchFailed
               @ [TotalWritten (reported_total ?res)]" by (rule out)
  qed
qed

theorem C7_witness:
  "map_sum id trace
       (update_data (sample_env (ymd2ord 2024 6 1) (Inr one_day_body)) 50
          [(''BTC-USD'', RawStr ''2024-05-30''), (''ETH-USD'', RawNaN)] [1, 0])
     = Inr [FutureDone 1,
            Put [(''ETH-USD'', 739037, Finite 1, Finite 2, Finite 1, Finite 2, Finite 10)],
            FutureDone 0,
            Put [(''BTC-USD'', 739037, Finite 1, Finite 2, Finite 1, Finite 2, Finite 10)],
            Progress 2 2, PutEndOfStream]
   \<and> set [1, 0] = {..<length [(''BTC-USD'', RawStr ''2024-05-30''), (''ETH-USD'', RawNaN)]}
   \<and> db_writer (\<lambda>n. Succeeds) []
         (queue_of [FutureDone 1,
            Put [(''ETH-USD'', 739037, Finite 1, Finite 2, Finite 1, Finite 2, Finite 10)],
            FutureDone 0,
            Put [(''BTC-USD'', 739037, Finite 1, Finite 2, Finite 1, Finite 2, Finite 10)],
            Progress 2 2, PutEndOfStream])
     = Some \<lparr>store = [(''ETH-USD'', 739037, Finite 1, Finite 2, Finite 1, Finite 2, Finite 10),
                       (''BTC-USD'', 739037, Finite 1, Finite 2, Finite 1, Finite 2, Finite 10)],
             reported_total = 2, writer_output = [TotalWritten 2], unread = []\<rparr>"
proof -
  let ?env = "sample_env (ymd2ord 2024 6 1) (Inr one_day_body)"
  let ?plan = "[(''BTC-USD'', RawStr ''2024-05-30''), (''ETH-USD'', RawNaN)]"
  have order: "set [1, 0] = {..<length ?plan}" by auto
  have btc: "fst (fetch_worker ?env ''BTC-USD'' (RawStr ''2024-05-30''))
      = Inr (''BTC-USD'', [(''BTC-USD'', 739037, Finite 1, Finite 2, Finite 1, Finite 2, Finite 10)])"
    by (simp add: fetch_worker_def sample_env_def normalize_last_date_def sample_to_date_def
        strip_def is_space_def lower_def lower_char_def ymd2ord_examples ymd2ord_2024_06_01
        planner_defs yahoo_fetch_range_rows_def one_day_body_def one_day_quote_def
        chart_body_def extract_result_def parse_quote_def quote_array_def row_of_record_def
        day_of_seconds_def)
  have eth: "fst (fetch_worker ?env ''ETH-USD'' RawNaN)
      = Inr (''ETH-USD'', [(''ETH-USD'', 739037, Finite 1, Finite 2, Finite 1, Finite 2, Finite 10)])"
    by (simp add: fetch_worker_def sample_env_def normalize_last_date_def
        ymd2ord_examples ymd2ord_2024_06_01
        planner_defs yahoo_fetch_range_rows_def one_day_body_def one_day_quote_def
        chart_body_def extract_result_def parse_quote_def quote_array_def row_of_record_def
        day_of_seconds_def)
  have run: "update_data ?env 50 ?plan [1, 0]
      = Inr \<lparr>total_rows = 2, completed = 2,
             trace = [FutureDone 1,
               Put [(''ETH-USD'', 739037, Finite 1, Finite 2, Finite 1, Finite 2, Finite 10)],
               FutureDone 0,
               Put [(''BTC-USD'', 739037, Finite 1, Finite 2, Finite 1, Finite 2, Finite 10)],
               Progress 2 2, PutEndOfStream]\<rparr>"
    by (simp add: update_data_def btc eth Let_def numeral_2_eq_2)
  have written: "db_writer (\<lambda>n. Succeeds) []
         (queue_of [FutureDone 1,
            Put [(''ETH-USD'', 739037, Finite 1, Finite 2, Finite 1, Finite 2, Finite 10)],
            FutureDone 0,
            Put [(''BTC-USD'', 739037, Finite 1, Finite 2, Finite 1, Finite 2, Finite 10)],
            Progress 2 2, PutEndOfStream])
     = Some \<lparr>store = [(''ETH-USD'', 739037, Finite 1, Finite 2, Finite 1, Finite 2, Finite 10),
                       (''BTC-USD'', 739037, Finite 1, Finite 2, Finite 1, Finite 2, Finite 10)],
             reported_total = 2, writer_output = [TotalWritten 2], unread = []\<rparr>"
    by (simp add: db_writer_def executemany_def insert_or_ignore_def visible_def commit_def
        row_key_def)
  have "?plan \<noteq> []" and "0 < (50::int)" by simp_all
  from C7_end_of_stream_last [OF this order, of ?env "\<lambda>n. Succeeds" "[]"] run order written
  show ?thesis by simp
qed

end
